theory Spec2Isabelle
  imports Main
begin

section \<open>Smoke-test harnesses for container images\<close>

text \<open>
  The two scripts \<^verbatim>\<open>test-postgres-chainguard.py\<close> and \<^verbatim>\<open>test-rust-chainguard.py\<close>
  drive an external command-line tool. Everything they do is an effect: they spawn
  processes, sleep, print, and (the Rust script) touch files of the working directory.
  The embedding makes the effects explicit. A \<open>state\<close> holds what has happened so far,
  an \<open>env\<close> says how the outside answers, and each piece of the scripts is a function
  from a state to a result and a new state. A result is either a Python exception
  (\<open>Inl\<close>) or a value (\<open>Inr\<close>).
\<close>

subsection \<open>Values of the outside world\<close>

text \<open>
  A Python \<^verbatim>\<open>str\<close> is a sequence of Unicode code points. Commands, paths and the fixed
  texts of messages are ASCII literals of the scripts and are kept as \<open>string\<close>.
\<close>

type_synonym pystr = "nat list"

text \<open>What a finished child process leaves behind, as \<^verbatim>\<open>subprocess.run\<close> with
  \<^verbatim>\<open>capture_output=True, text=True\<close> hands it over.\<close>

record proc =
  stdout :: pystr
  stderr :: pystr
  returncode :: int

text \<open>An entry of the working directory is a plain file, a directory or a symbolic link.
  Of a link only what it leads to is kept: a plain file, a directory, or nothing (a
  dangling link). Contents and permissions are not tracked.\<close>

datatype target = ToFile | ToDir | Dangling

datatype entry = File | Dir | Link target

type_synonym fs = "string \<Rightarrow> entry option"

text \<open>The effects that the outside can see: a command that was run, with the exit status
  it gave, and a pause of \<^verbatim>\<open>time.sleep\<close>.\<close>

datatype event = Cmd string int | Sleep nat

text \<open>What \<^verbatim>\<open>json.loads\<close> returns. Of a number only its being zero is used by the
  scripts. An object is the list of its members, read with \<open>map_of\<close>.\<close>

datatype json =
    JNull
  | JBool bool
  | JNum int
  | JStr pystr
  | JArr "json list"
  | JObj "(pystr \<times> json) list"

text \<open>The exceptions that the modelled operations raise.\<close>

datatype exn =
    CalledProcessError pystr pystr int
  | JSONDecodeError
  | IndexError
  | KeyError
  | TypeError
  | AttributeError
  | OSError
  | ShutilError

text \<open>A printed line: the leading sign, the fixed text, and what the f-string
  interpolates after it. Line breaks inside the texts are left out. \<open>SayAttempt\<close> is the
  line of the readiness loop, with the number of the attempt and the number of attempts;
  \<open>SayExn\<close> is the line of the exception handler of the Rust script.\<close>

datatype sign = Plain | Check | Cross | Warning | Broom

datatype msg =
    Say sign string
  | SayStr sign string pystr
  | SayJson string json
  | SayAttempt nat nat
  | SayExn exn

record state =
  history :: "event list"
  printed :: "msg list"
  files :: fs

text \<open>
  The environment: \<open>exec\<close> is the shell running a command, which answers from the
  commands and pauses so far and the files of the working directory, and may change the
  files (the Rust script mounts the working directory into the container);
  \<open>loads\<close> is \<^verbatim>\<open>json.loads\<close>, with \<open>None\<close> for a text that does not decode;
  \<open>getcwd\<close> is the path \<^verbatim>\<open>os.getcwd()\<close> returns (the call is taken not to fail).
\<close>

record env =
  exec :: "event list \<Rightarrow> fs \<Rightarrow> string \<Rightarrow> proc \<times> fs"
  loads :: "pystr \<Rightarrow> json option"
  getcwd :: string

subsection \<open>Programs with state and exceptions\<close>

type_synonym 'a prog = "state \<Rightarrow> (exn + 'a) \<times> state"

definition ret :: "'a \<Rightarrow> 'a prog" where
  "ret x s = (Inr x, s)"

definition raise :: "exn \<Rightarrow> 'a prog" where
  "raise e s = (Inl e, s)"

definition bnd :: "'a prog \<Rightarrow> ('a \<Rightarrow> 'b prog) \<Rightarrow> 'b prog" where
  "bnd m f s = (case m s of (Inl e, s') \<Rightarrow> (Inl e, s') | (Inr x, s') \<Rightarrow> f x s')"

definition print :: "msg \<Rightarrow> unit prog" where
  "print m s = (Inr (), s\<lparr>printed := printed s @ [m]\<rparr>)"

definition sleep :: "nat \<Rightarrow> unit prog" where
  "sleep n s = (Inr (), s\<lparr>history := history s @ [Sleep n]\<rparr>)"

subsection \<open>\<^verbatim>\<open>run_command\<close>\<close>

text \<open>The code points for which \<^verbatim>\<open>str.isspace\<close> holds, and \<^verbatim>\<open>str.strip()\<close>.\<close>

definition isspace :: "nat \<Rightarrow> bool" where
  "isspace c = (c \<in> set ([0x09, 0x0A, 0x0B, 0x0C, 0x0D, 0x1C, 0x1D, 0x1E, 0x1F, 0x20, 0x85,
     0xA0, 0x1680, 0x2000, 0x2001, 0x2002, 0x2003, 0x2004, 0x2005, 0x2006, 0x2007, 0x2008,
     0x2009, 0x200A, 0x2028, 0x2029, 0x202F, 0x205F, 0x3000]))"

definition strip :: "pystr \<Rightarrow> pystr" where
  "strip t = rev (dropWhile isspace (rev (dropWhile isspace t)))"

text \<open>\<^verbatim>\<open>subprocess.run(cmd, shell=True, capture_output=True, text=True, check=check)\<close>:
  the command runs whatever \<open>check\<close> is; with \<open>check\<close> a nonzero exit status raises
  \<^verbatim>\<open>CalledProcessError\<close>, which carries the captured output and the status. The shell
  is taken to start and the output to decode, so nothing else is raised here.\<close>

definition subprocess_run :: "env \<Rightarrow> string \<Rightarrow> bool \<Rightarrow> proc prog" where
  "subprocess_run w cmd check s =
     (let (p, fs') = exec w (history s) (files s) cmd;
          s' = s\<lparr>history := history s @ [Cmd cmd (returncode p)], files := fs'\<rparr>
      in if check \<and> returncode p \<noteq> 0
         then (Inl (CalledProcessError (stdout p) (stderr p) (returncode p)), s')
         else (Inr p, s'))"

definition run_command :: "env \<Rightarrow> string \<Rightarrow> bool \<Rightarrow> (pystr \<times> pystr \<times> int) prog" where
  "run_command w cmd check s =
     (case subprocess_run w cmd check s of
        (Inr result, s') \<Rightarrow> (Inr (strip (stdout result), strip (stderr result), returncode result), s')
      | (Inl (CalledProcessError e_stdout e_stderr e_returncode), s') \<Rightarrow>
          (Inr (strip e_stdout, strip e_stderr, e_returncode), s')
      | (Inl e, s') \<Rightarrow> (Inl e, s'))"

subsection \<open>Reading the decoded JSON\<close>

definition ustr :: "string \<Rightarrow> pystr" where
  "ustr cs = map of_char cs"

text \<open>The truth value of a decoded value, as \<^verbatim>\<open>if container_info:\<close> takes it.\<close>

fun truthy :: "json \<Rightarrow> bool" where
  "truthy JNull = False"
| "truthy (JBool b) = b"
| "truthy (JNum n) = (n \<noteq> 0)"
| "truthy (JStr t) = (t \<noteq> [])"
| "truthy (JArr xs) = (xs \<noteq> [])"
| "truthy (JObj kvs) = (kvs \<noteq> [])"

text \<open>\<^verbatim>\<open>x[0]\<close>: the first item of a list or string; a decoded object has string keys
  only, so the key \<open>0\<close> is missing; nothing else can be subscripted.\<close>

fun item0 :: "json \<Rightarrow> exn + json" where
  "item0 (JArr []) = Inl IndexError"
| "item0 (JArr (x # xs)) = Inr x"
| "item0 (JStr []) = Inl IndexError"
| "item0 (JStr (c # cs)) = Inr (JStr [c])"
| "item0 (JObj kvs) = Inl KeyError"
| "item0 x = Inl TypeError"

text \<open>\<^verbatim>\<open>x.get(key, default)\<close>: only a dict has the method.\<close>

fun get :: "json \<Rightarrow> pystr \<Rightarrow> json \<Rightarrow> exn + json" where
  "get (JObj kvs) key dflt = Inr (case map_of kvs key of Some v \<Rightarrow> v | None \<Rightarrow> dflt)"
| "get x key dflt = Inl AttributeError"

definition lift :: "exn + 'a \<Rightarrow> 'a prog" where
  "lift r s = (r, s)"

definition json_loads :: "env \<Rightarrow> pystr \<Rightarrow> json prog" where
  "json_loads w t = (case loads w t of None \<Rightarrow> raise JSONDecodeError | Some j \<Rightarrow> ret j)"

subsection \<open>The PostgreSQL script\<close>

definition container_name :: string where
  "container_name = ''test-postgres-chainguard''"

definition images_cmd :: string where
  "images_cmd = ''container images list | grep chainguard/postgres''"

definition stop_cmd :: string where
  "stop_cmd = ''container stop '' @ container_name"

definition delete_cmd :: string where
  "delete_cmd = ''container delete '' @ container_name"

text \<open>The backslash at the end of a line of the triple-quoted literal joins it to the next
  line, whose indentation stays in the text.\<close>

definition start_cmd :: string where
  "start_cmd = ''container run --name '' @ container_name @ '' --detach '' @
     ''        --env POSTGRES_PASSWORD=testpassword '' @
     ''        --env POSTGRES_USER=testuser '' @
     ''        --env POSTGRES_DB=testdb '' @
     ''        chainguard/postgres:latest''"

definition probe_cmd :: string where
  "probe_cmd = ''container exec '' @ container_name @ '' pg_isready -U testuser -d testdb''"

text \<open>The shape shared by the four \<^verbatim>\<open>psql\<close> commands of steps 4 and 5.\<close>

definition psql_cmd :: "string \<Rightarrow> string" where
  \<open>psql_cmd query =
     ''container exec '' @ container_name @ '' psql -U testuser -d testdb -c "'' @ query @ ''" ''\<close>

definition test_query :: string where
  "test_query = ''SELECT version();''"

definition create_table :: string where
  "create_table = ''CREATE TABLE test_table (id SERIAL PRIMARY KEY, name VARCHAR(50), created_at TIMESTAMP DEFAULT CURRENT_TIMESTAMP);''"

definition insert_data :: string where
  \<open>insert_data = ''INSERT INTO test_table (name) VALUES ('test_record');''\<close>

definition select_data :: string where
  "select_data = ''SELECT * FROM test_table;''"

definition inspect_cmd :: string where
  "inspect_cmd = ''container inspect '' @ container_name"

definition max_attempts :: nat where
  "max_attempts = 30"

text \<open>
  The body of \<^verbatim>\<open>test_postgres_chainguard\<close> is cut at its own step comments. Each part
  is the rest of the function from that step on, so an early \<^verbatim>\<open>return False\<close> is a
  part that ends without calling the next one. The parts are given last step first.
\<close>

text \<open>Step 7: stop, delete, and \<^verbatim>\<open>return True\<close>.\<close>

definition pg_cleanup :: "env \<Rightarrow> bool prog" where
  "pg_cleanup w =
     bnd (print (Say Plain ''7. Cleaning up...'')) (\<lambda>_.
     bnd (run_command w stop_cmd True) (\<lambda>(out, err, code).
     bnd (print (if code = 0 then Say Check ''Container stopped''
                 else SayStr Cross ''Failed to stop container: '' err)) (\<lambda>_.
     bnd (run_command w delete_cmd True) (\<lambda>(out, err, code).
     bnd (print (if code = 0 then Say Check ''Container deleted''
                 else SayStr Cross ''Failed to delete container: '' err)) (\<lambda>_.
     bnd (print (Say Plain ''=== Test completed successfully! ==='')) (\<lambda>_.
     ret True))))))"

text \<open>Step 6, the part inside \<^verbatim>\<open>try\<close> after the text has been decoded. Where the test
  \<^verbatim>\<open>'networks' in info\<close> is reached, \<open>info\<close> is an object, since \<open>get\<close> has succeeded on
  it; the other branch of that case is never taken.\<close>

definition pg_show_info :: "json \<Rightarrow> unit prog" where
  "pg_show_info container_info =
     (if truthy container_info then
        bnd (lift (item0 container_info)) (\<lambda>info.
        bnd (lift (get info (ustr ''configuration'') (JObj []))) (\<lambda>conf.
        bnd (lift (get conf (ustr ''id'') (JStr (ustr ''N/A'')))) (\<lambda>v.
        bnd (print (SayJson ''Container ID: '' v)) (\<lambda>_.
        bnd (lift (get info (ustr ''status'') (JStr (ustr ''N/A'')))) (\<lambda>v.
        bnd (print (SayJson ''Status: '' v)) (\<lambda>_.
        bnd (lift (get info (ustr ''configuration'') (JObj []))) (\<lambda>conf.
        bnd (lift (get conf (ustr ''architecture'') (JStr (ustr ''N/A'')))) (\<lambda>v.
        bnd (print (SayJson ''Architecture: '' v)) (\<lambda>_.
        (case info of
           JObj kvs \<Rightarrow>
             (case map_of kvs (ustr ''networks'') of
                Some networks \<Rightarrow>
                  if truthy networks then
                    bnd (lift (item0 networks)) (\<lambda>network.
                    bnd (lift (get network (ustr ''address'') (JStr (ustr ''N/A'')))) (\<lambda>v.
                    print (SayJson ''IP Address: '' v)))
                  else ret ()
              | None \<Rightarrow> ret ())
         | _ \<Rightarrow> raise TypeError))))))))))
      else ret ())"

text \<open>\<^verbatim>\<open>try: ... except json.JSONDecodeError: print(...)\<close>: only that exception is
  caught.\<close>

definition except_JSONDecodeError :: "unit prog \<Rightarrow> unit prog" where
  "except_JSONDecodeError body s =
     (case body s of
        (Inl JSONDecodeError, s') \<Rightarrow> print (Say Plain ''Could not parse container information'') s'
      | r \<Rightarrow> r)"

definition pg_inspect :: "env \<Rightarrow> bool prog" where
  "pg_inspect w =
     bnd (print (Say Plain ''6. Container information:'')) (\<lambda>_.
     bnd (run_command w inspect_cmd True) (\<lambda>(out, err, code).
     bnd (if code = 0 then except_JSONDecodeError (bnd (json_loads w out) pg_show_info)
          else ret ()) (\<lambda>_.
     pg_cleanup w)))"

text \<open>Step 5: create, insert, query.\<close>

definition pg_query :: "env \<Rightarrow> bool prog" where
  "pg_query w =
     bnd (run_command w (psql_cmd select_data) True) (\<lambda>(out, err, code).
     if code = 0 then
       bnd (print (Say Check ''Query test successful!'')) (\<lambda>_.
       bnd (print (SayStr Plain ''Query result:'' out)) (\<lambda>_.
       pg_inspect w))
     else
       bnd (print (SayStr Cross ''Query test failed: '' err)) (\<lambda>_. ret False))"

definition pg_insert :: "env \<Rightarrow> bool prog" where
  "pg_insert w =
     bnd (run_command w (psql_cmd insert_data) True) (\<lambda>(out, err, code).
     if code = 0 then
       bnd (print (Say Check ''Inserted test data'')) (\<lambda>_. pg_query w)
     else
       bnd (print (SayStr Cross ''Failed to insert data: '' err)) (\<lambda>_. ret False))"

definition pg_create :: "env \<Rightarrow> bool prog" where
  "pg_create w =
     bnd (print (Say Plain ''5. Testing basic database operations...'')) (\<lambda>_.
     bnd (run_command w (psql_cmd create_table) True) (\<lambda>(out, err, code).
     if code = 0 then
       bnd (print (Say Check ''Created test table'')) (\<lambda>_. pg_insert w)
     else
       bnd (print (SayStr Cross ''Failed to create table: '' err)) (\<lambda>_. ret False)))"

text \<open>Step 4: connectivity.\<close>

definition pg_connect :: "env \<Rightarrow> bool prog" where
  "pg_connect w =
     bnd (print (Say Plain ''4. Testing database connectivity...'')) (\<lambda>_.
     bnd (run_command w (psql_cmd test_query) True) (\<lambda>(out, err, code).
     if code = 0 then
       bnd (print (Say Check ''Database connectivity test successful!'')) (\<lambda>_.
       bnd (print (SayStr Plain ''PostgreSQL version: '' (strip out))) (\<lambda>_.
       pg_create w))
     else
       bnd (print (SayStr Cross ''Database connectivity test failed: '' err)) (\<lambda>_. ret False)))"

text \<open>Step 3. The \<^verbatim>\<open>for attempt in range(max_attempts)\<close> loop runs over the attempts left;
  it returns \<open>True\<close> where the source leaves the loop by \<^verbatim>\<open>break\<close> and \<open>False\<close> where
  the \<^verbatim>\<open>else\<close> of the loop is reached.\<close>

fun pg_poll :: "env \<Rightarrow> nat list \<Rightarrow> bool prog" where
  "pg_poll w [] s =
     bnd (print (Say Cross ''PostgreSQL failed to start within expected time'')) (\<lambda>_.
     ret False) s"
| "pg_poll w (attempt # rest) s =
     (case run_command w probe_cmd True s of
        (Inl e, s') \<Rightarrow> (Inl e, s')
      | (Inr (out, err, code), s') \<Rightarrow>
          if code = 0 then
            bnd (print (Say Check ''PostgreSQL is ready!'')) (\<lambda>_. ret True) s'
          else
            (case bnd (print (SayAttempt (attempt + 1) max_attempts)) (\<lambda>_. sleep 2) s' of
               (Inl e, s'') \<Rightarrow> (Inl e, s'')
             | (Inr u, s'') \<Rightarrow> pg_poll w rest s''))"

definition pg_wait :: "env \<Rightarrow> bool prog" where
  "pg_wait w =
     bnd (print (Say Plain ''3. Waiting for PostgreSQL to be ready...'')) (\<lambda>_.
     bnd (pg_poll w [0..<max_attempts]) (\<lambda>ready.
     if ready then pg_connect w else ret False))"

text \<open>Step 2: remove a container of the same name, then start one.\<close>

definition pg_start :: "env \<Rightarrow> bool prog" where
  "pg_start w =
     bnd (print (Say Plain ''2. Starting PostgreSQL container...'')) (\<lambda>_.
     bnd (run_command w stop_cmd False) (\<lambda>_.
     bnd (run_command w delete_cmd False) (\<lambda>_.
     bnd (run_command w start_cmd True) (\<lambda>(out, err, code).
     if code = 0 then
       bnd (print (Say Check ''Successfully started PostgreSQL container'')) (\<lambda>_.
       bnd (print (SayStr Plain ''Container ID: '' out)) (\<lambda>_.
       pg_wait w))
     else
       bnd (print (SayStr Cross ''Failed to start container: '' err)) (\<lambda>_. ret False)))))"

text \<open>Step 1, and with it the whole function.\<close>

definition test_postgres_chainguard :: "env \<Rightarrow> bool prog" where
  "test_postgres_chainguard w =
     bnd (print (Say Plain ''=== Testing Chainguard PostgreSQL Image ==='')) (\<lambda>_.
     bnd (print (Say Plain ''1. Checking for existing Chainguard PostgreSQL image...'')) (\<lambda>_.
     bnd (run_command w images_cmd True) (\<lambda>(out, err, code).
     if code = 0 then
       bnd (print (Say Check ''Found existing Chainguard PostgreSQL image'')) (\<lambda>_. pg_start w)
     else
       bnd (print (Say Cross ''Chainguard PostgreSQL image not found'')) (\<lambda>_. ret False))))"

text \<open>\<^verbatim>\<open>sys.exit(0 if success else 1)\<close>; an exception that leaves the function ends the
  interpreter with status 1.\<close>

definition exit_status :: "exn + bool \<Rightarrow> int" where
  "exit_status r = (case r of Inr success \<Rightarrow> (if success then 0 else 1) | Inl e \<Rightarrow> 1)"

definition postgres_main :: "env \<Rightarrow> state \<Rightarrow> int" where
  "postgres_main w s = exit_status (fst (test_postgres_chainguard w s))"

subsection \<open>Files of the working directory\<close>

text \<open>\<^verbatim>\<open>os.path.exists\<close> and \<^verbatim>\<open>os.path.isdir\<close> follow links: a dangling link does not
  exist for them, and a link to a directory is a directory.\<close>

fun present :: "entry option \<Rightarrow> bool" where
  "present None = False"
| "present (Some (Link Dangling)) = False"
| "present (Some e) = True"

fun isdir :: "entry option \<Rightarrow> bool" where
  "isdir (Some Dir) = True"
| "isdir (Some (Link ToDir)) = True"
| "isdir e = False"

definition path_exists :: "string \<Rightarrow> bool prog" where
  "path_exists p s = (Inr (present (files s p)), s)"

text \<open>\<^verbatim>\<open>os.remove\<close> removes a plain file or a link (the link itself, wherever it leads)
  and raises on a directory or a missing path.\<close>

definition os_remove :: "string \<Rightarrow> unit prog" where
  "os_remove p s =
     (case files s p of
        Some File \<Rightarrow> (Inr (), s\<lparr>files := (files s)(p := None)\<rparr>)
      | Some (Link t) \<Rightarrow> (Inr (), s\<lparr>files := (files s)(p := None)\<rparr>)
      | Some Dir \<Rightarrow> (Inl OSError, s)
      | None \<Rightarrow> (Inl OSError, s))"

text \<open>The paths below a directory.\<close>

definition under :: "string \<Rightarrow> string \<Rightarrow> bool" where
  "under d p = (take (Suc (length d)) p = d @ ''/'')"

text \<open>\<^verbatim>\<open>shutil.rmtree\<close> removes a directory with all below it and raises on a plain file,
  on a link (also on one that leads to a directory) and on a missing path.\<close>

definition rmtree :: "string \<Rightarrow> unit prog" where
  "rmtree p s =
     (case files s p of
        Some Dir \<Rightarrow> (Inr (), s\<lparr>files := (\<lambda>q. if q = p \<or> under p q then None else files s q)\<rparr>)
      | Some File \<Rightarrow> (Inl OSError, s)
      | Some (Link t) \<Rightarrow> (Inl OSError, s)
      | None \<Rightarrow> (Inl OSError, s))"

text \<open>\<^verbatim>\<open>with open(p, 'w') as f: f.write(...)\<close> creates or overwrites a plain file and
  raises on a directory. It follows a link: the file the link leads to is overwritten,
  a link to a directory raises, and the file a dangling link names is created (the
  directory it names is taken to exist).\<close>

definition write_file :: "string \<Rightarrow> unit prog" where
  "write_file p s =
     (case files s p of
        None \<Rightarrow> (Inr (), s\<lparr>files := (files s)(p \<mapsto> File)\<rparr>)
      | Some File \<Rightarrow> (Inr (), s\<lparr>files := (files s)(p \<mapsto> File)\<rparr>)
      | Some Dir \<Rightarrow> (Inl OSError, s)
      | Some (Link ToFile) \<Rightarrow> (Inr (), s)
      | Some (Link ToDir) \<Rightarrow> (Inl OSError, s)
      | Some (Link Dangling) \<Rightarrow> (Inr (), s\<lparr>files := (files s)(p \<mapsto> Link ToFile)\<rparr>))"

text \<open>\<^verbatim>\<open>os.makedirs(p, exist_ok=True)\<close> for a path of one component: an entry that is
  there is accepted when \<^verbatim>\<open>os.path.isdir\<close> holds of it.\<close>

definition os_makedirs :: "string \<Rightarrow> unit prog" where
  "os_makedirs p s =
     (case files s p of
        None \<Rightarrow> (Inr (), s\<lparr>files := (files s)(p \<mapsto> Dir)\<rparr>)
      | Some e \<Rightarrow> if isdir (Some e) then (Inr (), s) else (Inl OSError, s))"

text \<open>A directory renamed, with all below it.\<close>

definition move_tree :: "string \<Rightarrow> string \<Rightarrow> fs \<Rightarrow> fs" where
  "move_tree a b f =
     (\<lambda>q. if q = a \<or> under a q then None
          else if q = b then Some Dir
          else if under b q then f (a @ drop (length b) q)
          else f q)"

text \<open>\<^verbatim>\<open>shutil.move(src, dst)\<close> for a source of one component. A target for which
  \<^verbatim>\<open>os.path.isdir\<close> holds receives the source under its own name, which must not exist
  there. Then the source is renamed: a plain file or a link replaces whatever entry is at
  the target (by then no directory), a directory needs a free target, a missing source
  raises (what \<^verbatim>\<open>shutil\<close> falls back to when the rename fails raises as well). Where
  a link leads is not kept, so a target that leads back to the source is left out.\<close>

definition shutil_move :: "string \<Rightarrow> string \<Rightarrow> unit prog" where
  "shutil_move src dst s =
     (let real_dst = (if isdir (files s dst) then dst @ ''/'' @ src else dst)
      in if isdir (files s dst) \<and> present (files s real_dst) then (Inl ShutilError, s)
         else (case files s src of
                 None \<Rightarrow> (Inl OSError, s)
               | Some Dir \<Rightarrow>
                   if files s real_dst = None
                   then (Inr (), s\<lparr>files := move_tree src real_dst (files s)\<rparr>)
                   else (Inl OSError, s)
               | Some e \<Rightarrow> (Inr (), s\<lparr>files := (files s)(src := None, real_dst \<mapsto> e)\<rparr>)))"

subsection \<open>The Rust script\<close>

definition files_to_remove :: "string list" where
  "files_to_remove = [''hello_world.rs'', ''Cargo.toml'', ''hello_world'', ''hello_optimized'']"

text \<open>The loop of \<^verbatim>\<open>cleanup_files\<close>.\<close>

fun remove_each :: "string list \<Rightarrow> unit prog" where
  "remove_each [] s = ret () s"
| "remove_each (file # rest) s =
     (case path_exists file s of
        (Inl e, s') \<Rightarrow> (Inl e, s')
      | (Inr found, s') \<Rightarrow>
          if found then
            (case os_remove file s' of
               (Inl e, s'') \<Rightarrow> (Inl e, s'')
             | (Inr u, s'') \<Rightarrow> remove_each rest s'')
          else remove_each rest s')"

definition cleanup_files :: "unit prog" where
  "cleanup_files =
     bnd (remove_each files_to_remove) (\<lambda>_.
     bnd (path_exists ''src'') (\<lambda>found.
     if found then rmtree ''src'' else ret ()))"

text \<open>The two shapes of the commands: a shell command in a fresh container, without
  and with the working directory mounted at \<^verbatim>\<open>/workspace\<close>.\<close>

definition in_container :: "string \<Rightarrow> string" where
  \<open>in_container sh =
     ''container run --name test-rust-chainguard --rm --entrypoint sh chainguard/rust:latest -c "''
       @ sh @ ''"''\<close>

definition in_workspace :: "string \<Rightarrow> string \<Rightarrow> string" where
  \<open>in_workspace cwd sh =
     ''container run --name test-rust-chainguard --rm --volume "'' @ cwd @
     '':/workspace" --workdir /workspace --entrypoint sh chainguard/rust:latest -c "'' @ sh @ ''"''\<close>

definition rust_images_cmd :: string where
  "rust_images_cmd = ''container images list | grep chainguard/rust''"

definition version_cmd :: string where
  "version_cmd = in_container ''rustc --version''"

definition compile_cmd :: "string \<Rightarrow> string" where
  "compile_cmd cwd = in_workspace cwd ''rustc hello_world.rs -o hello_world''"

definition run_cmd :: "string \<Rightarrow> string" where
  "run_cmd cwd = in_workspace cwd ''./hello_world''"

definition cargo_cmd :: string where
  "cargo_cmd = in_container ''cargo --version''"

definition optimized_cmd :: "string \<Rightarrow> string" where
  "optimized_cmd cwd = in_workspace cwd ''rustc src/main.rs -O -o hello_optimized''"

definition run_optimized_cmd :: "string \<Rightarrow> string" where
  "run_optimized_cmd cwd = in_workspace cwd ''./hello_optimized''"

definition uname_cmd :: string where
  "uname_cmd = in_container ''uname -a''"

definition details_cmd :: string where
  \<open>details_cmd =
     in_container ''rustc --version && echo 'Targets:' && rustc --print target-list | head -5''\<close>

text \<open>The body of \<^verbatim>\<open>try\<close>, cut at the step comments, last step first. The variable
  \<^verbatim>\<open>cwd\<close> is read in step 4 and used in steps 4, 5 and 7.\<close>

text \<open>Steps 8 and 9, and \<^verbatim>\<open>return True\<close>.\<close>

definition rust_details :: "env \<Rightarrow> bool prog" where
  "rust_details w =
     bnd (print (Say Plain ''9. Checking Rust installation details...'')) (\<lambda>_.
     bnd (run_command w details_cmd True) (\<lambda>(out, err, code).
     bnd (if code = 0 then print (SayStr Plain ''Rust details:'' out) else ret ()) (\<lambda>_.
     bnd (print (Say Plain ''=== Test completed successfully! ==='')) (\<lambda>_.
     ret True))))"

definition rust_uname :: "env \<Rightarrow> bool prog" where
  "rust_uname w =
     bnd (print (Say Plain ''8. Container information:'')) (\<lambda>_.
     bnd (run_command w uname_cmd True) (\<lambda>(out, err, code).
     bnd (if code = 0 then print (SayStr Plain ''System info: '' out) else ret ()) (\<lambda>_.
     rust_details w)))"

text \<open>Step 7: the project layout, the optimised build and its run.\<close>

definition rust_features :: "env \<Rightarrow> bool prog" where
  "rust_features w =
     bnd (print (Say Plain ''7. Testing Rust compiler features...'')) (\<lambda>_.
     bnd (os_makedirs ''src'') (\<lambda>_.
     bnd (shutil_move ''hello_world.rs'' ''src/main.rs'') (\<lambda>_.
     bnd (write_file ''Cargo.toml'') (\<lambda>_.
     bnd (run_command w (optimized_cmd (getcwd w)) True) (\<lambda>(out, err, code).
     bnd (if code = 0 then
            bnd (print (Say Check ''Optimized compilation successful'')) (\<lambda>_.
            bnd (run_command w (run_optimized_cmd (getcwd w)) True) (\<lambda>(out, err, code).
            if code = 0 then
              bnd (print (Say Check ''Optimized program execution successful'')) (\<lambda>_.
              print (SayStr Plain ''Optimized output:'' out))
            else ret ()))
          else print (SayStr Cross ''Optimized compilation failed: '' err)) (\<lambda>_.
     rust_uname w))))))"

text \<open>Step 6: the version of Cargo.\<close>

definition rust_cargo :: "env \<Rightarrow> bool prog" where
  "rust_cargo w =
     bnd (print (Say Plain ''6. Testing Cargo (Rust package manager)...'')) (\<lambda>_.
     bnd (run_command w cargo_cmd True) (\<lambda>(out, err, code).
     bnd (if code = 0 then
            bnd (print (Say Check ''Cargo version check successful'')) (\<lambda>_.
            print (SayStr Plain ''Cargo version: '' out))
          else print (Say Warning ''Cargo not available (expected for minimal Rust image)'')) (\<lambda>_.
     rust_features w)))"

text \<open>Steps 5, 4 and 3: run, compile, version of the compiler.\<close>

definition rust_run :: "env \<Rightarrow> bool prog" where
  "rust_run w =
     bnd (print (Say Plain ''5. Running compiled Rust program...'')) (\<lambda>_.
     bnd (run_command w (run_cmd (getcwd w)) True) (\<lambda>(out, err, code).
     if code = 0 then
       bnd (print (Say Check ''Rust program execution successful'')) (\<lambda>_.
       bnd (print (SayStr Plain ''Program output:'' out)) (\<lambda>_.
       rust_cargo w))
     else
       bnd (print (SayStr Cross ''Failed to run Rust program: '' err)) (\<lambda>_. ret False)))"

definition rust_compile :: "env \<Rightarrow> bool prog" where
  "rust_compile w =
     bnd (print (Say Plain ''4. Compiling Rust program...'')) (\<lambda>_.
     bnd (run_command w (compile_cmd (getcwd w)) True) (\<lambda>(out, err, code).
     if code = 0 then
       bnd (print (Say Check ''Rust compilation successful'')) (\<lambda>_. rust_run w)
     else
       bnd (print (SayStr Cross ''Rust compilation failed: '' err)) (\<lambda>_. ret False)))"

definition rust_version :: "env \<Rightarrow> bool prog" where
  "rust_version w =
     bnd (print (Say Plain ''3. Testing Rust version in container...'')) (\<lambda>_.
     bnd (run_command w version_cmd True) (\<lambda>(out, err, code).
     if code = 0 then
       bnd (print (Say Check ''Rust version check successful'')) (\<lambda>_.
       bnd (print (SayStr Plain ''Rust version: '' out)) (\<lambda>_.
       rust_compile w))
     else
       bnd (print (SayStr Cross ''Failed to get Rust version: '' err)) (\<lambda>_. ret False)))"

text \<open>Step 2: the source file is staged.\<close>

definition rust_create :: "env \<Rightarrow> bool prog" where
  "rust_create w =
     bnd (print (Say Plain ''2. Creating simple Rust test program...'')) (\<lambda>_.
     bnd (write_file ''hello_world.rs'') (\<lambda>_.
     bnd (print (Say Check ''Created Rust test program'')) (\<lambda>_.
     rust_version w)))"

text \<open>Step 1, and with it the body of \<^verbatim>\<open>try\<close>.\<close>

definition rust_body :: "env \<Rightarrow> bool prog" where
  "rust_body w =
     bnd (print (Say Plain ''1. Verifying Chainguard Rust image...'')) (\<lambda>_.
     bnd (run_command w rust_images_cmd True) (\<lambda>(out, err, code).
     if code = 0 then
       bnd (print (Say Check ''Found Chainguard Rust image'')) (\<lambda>_. rust_create w)
     else
       bnd (print (Say Cross ''Chainguard Rust image not found'')) (\<lambda>_. ret False)))"

text \<open>\<^verbatim>\<open>except Exception as e\<close>: every modelled exception is an \<^verbatim>\<open>Exception\<close>, so the handler
  takes all of them.\<close>

definition try_except :: "'a prog \<Rightarrow> (exn \<Rightarrow> 'a prog) \<Rightarrow> 'a prog" where
  "try_except body handler s =
     (case body s of (Inl e, s') \<Rightarrow> handler e s' | (Inr x, s') \<Rightarrow> (Inr x, s'))"

text \<open>\<^verbatim>\<open>finally\<close>: the block runs after the body however the body ended; when the block
  raises, its exception replaces the outcome of the body.\<close>

definition try_finally :: "'a prog \<Rightarrow> unit prog \<Rightarrow> 'a prog" where
  "try_finally body final s =
     (case body s of
        (r, s') \<Rightarrow> (case final s' of (Inl e, s'') \<Rightarrow> (Inl e, s'') | (Inr u, s'') \<Rightarrow> (r, s'')))"

text \<open>The \<^verbatim>\<open>try\<close> statement without its \<^verbatim>\<open>finally\<close> block.\<close>

definition rust_guarded :: "env \<Rightarrow> bool prog" where
  "rust_guarded w =
     try_except (rust_body w) (\<lambda>e.
       bnd (print (SayExn e)) (\<lambda>_. ret False))"

definition test_rust_chainguard :: "env \<Rightarrow> bool prog" where
  "test_rust_chainguard w =
     bnd (print (Say Plain ''=== Testing Chainguard Rust Image ==='')) (\<lambda>_.
     try_finally (rust_guarded w)
       (bnd (print (Say Broom ''Cleaning up test files...'')) (\<lambda>_. cleanup_files)))"

definition rust_main :: "env \<Rightarrow> state \<Rightarrow> int" where
  "rust_main w s = exit_status (fst (test_rust_chainguard w s))"

subsection \<open>Observing a run\<close>

text \<open>The answer of the outside to a command issued in a state, the state once the command
  has run, and the state once a line has been printed.\<close>

definition answer :: "env \<Rightarrow> string \<Rightarrow> state \<Rightarrow> proc" where
  "answer w cmd s = fst (exec w (history s) (files s) cmd)"

definition ran :: "env \<Rightarrow> string \<Rightarrow> state \<Rightarrow> state" where
  "ran w cmd s = s\<lparr>history := history s @ [Cmd cmd (returncode (answer w cmd s))],
                   files := snd (exec w (history s) (files s) cmd)\<rparr>"

definition said :: "msg \<Rightarrow> state \<Rightarrow> state" where
  "said m s = s\<lparr>printed := printed s @ [m]\<rparr>"

text \<open>What one failed readiness probe with exit status \<open>c\<close> leaves in the history.\<close>

definition failed_probe :: "int \<Rightarrow> event list" where
  "failed_probe c = [Cmd probe_cmd c, Sleep 2]"

subsection \<open>Concrete environments\<close>

definition quiet :: proc where
  "quiet = \<lparr>stdout = [], stderr = [], returncode = 0\<rparr>"

definition fresh :: state where
  "fresh = \<lparr>history = [], printed = [], files = Map.empty\<rparr>"

text \<open>Every command succeeds and prints nothing (so the output of
  \<^verbatim>\<open>container inspect\<close> does not decode).\<close>

definition all_fine :: env where
  "all_fine = \<lparr>exec = (\<lambda>h f c. (quiet, f)), loads = (\<lambda>t. None), getcwd = ''/work''\<rparr>"

text \<open>The container starts, and the database never becomes ready.\<close>

definition never_ready :: env where
  "never_ready =
     \<lparr>exec = (\<lambda>h f c. (quiet\<lparr>returncode := (if c = probe_cmd then 1 else 0)\<rparr>, f)),
      loads = (\<lambda>t. None), getcwd = ''/work''\<rparr>"

subsection \<open>Stopping at the first failure\<close>

text \<open>A command of a step that must succeed has failed: the set \<open>fatal\<close> names the commands of those steps.\<close>

definition failure :: "(string \<Rightarrow> bool) \<Rightarrow> event \<Rightarrow> bool" where
  "failure fatal e = (case e of Cmd c code \<Rightarrow> fatal c \<and> code \<noteq> 0 | Sleep n \<Rightarrow> False)"

text \<open>An event that is a command of the given set.\<close>

definition only :: "(string \<Rightarrow> bool) \<Rightarrow> event \<Rightarrow> bool" where
  "only allowed e = (case e of Cmd c code \<Rightarrow> allowed c | Sleep n \<Rightarrow> False)"

text \<open>Read from the start of what a run added to the history: up to the first failed
  command of a step that must succeed nothing is required; after it only commands of the
  cleanup phase may follow, and the run must have reported failure.\<close>

fun stops_at_failure :: "(string \<Rightarrow> bool) \<Rightarrow> (string \<Rightarrow> bool) \<Rightarrow> event list \<Rightarrow> bool \<Rightarrow> bool" where
  "stops_at_failure fatal cleanup [] failed = True"
| "stops_at_failure fatal cleanup (e # es) failed =
     (if failure fatal e then list_all (only cleanup) es \<and> failed
      else stops_at_failure fatal cleanup es failed)"

text \<open>A piece of a script that extends the history without such a failure, and a rest of a
  script whose additions stop at the first such failure. They carry the proofs from step
  to step and do not occur in the statements of the claims.\<close>

definition harmless :: "(string \<Rightarrow> bool) \<Rightarrow> 'a prog \<Rightarrow> bool" where
  "harmless fatal m =
     (\<forall>s. \<exists>new. history (snd (m s)) = history s @ new \<and> \<not> (\<exists>e \<in> set new. failure fatal e))"

definition obeys :: "(string \<Rightarrow> bool) \<Rightarrow> (string \<Rightarrow> bool) \<Rightarrow> (exn + bool \<Rightarrow> bool) \<Rightarrow> bool prog \<Rightarrow> bool" where
  "obeys fatal cleanup bad m =
     (\<forall>s. \<exists>new. history (snd (m s)) = history s @ new \<and>
                 stops_at_failure fatal cleanup new (bad (fst (m s))))"

definition is_False :: "exn + bool \<Rightarrow> bool" where
  "is_False r = (r = Inr False)"

definition not_True :: "exn + bool \<Rightarrow> bool" where
  "not_True r = (r \<noteq> Inr True)"

text \<open>The commands whose failure makes \<^verbatim>\<open>test_postgres_chainguard\<close> return \<open>False\<close>
  (steps 1, 2, 4 and 5), and the commands of its cleanup phase.\<close>

definition pg_fatal :: "string \<Rightarrow> bool" where
  "pg_fatal c = (c \<in> set [images_cmd, start_cmd, psql_cmd test_query, psql_cmd create_table,
     psql_cmd insert_data, psql_cmd select_data])"

definition pg_cleanup_cmd :: "string \<Rightarrow> bool" where
  "pg_cleanup_cmd c = (c = stop_cmd \<or> c = delete_cmd)"

text \<open>The commands whose failure makes \<^verbatim>\<open>test_rust_chainguard\<close> return \<open>False\<close>
  (steps 1, 3, 4 and 5). Its cleanup works on files and runs no command.\<close>

definition rust_fatal :: "string \<Rightarrow> string \<Rightarrow> bool" where
  "rust_fatal cwd c = (c \<in> set [rust_images_cmd, version_cmd, compile_cmd cwd, run_cmd cwd])"

definition no_cmd :: "string \<Rightarrow> bool" where
  "no_cmd c = False"

subsection \<open>More concrete environments\<close>

text \<open>The database is ready at once and the first query fails.\<close>

definition no_connection :: env where
  "no_connection =
     \<lparr>exec = (\<lambda>h f c. (quiet\<lparr>returncode := (if c = psql_cmd test_query then 2 else 0)\<rparr>, f)),
      loads = (\<lambda>t. None), getcwd = ''/work''\<rparr>"

text \<open>Everything succeeds but \<^verbatim>\<open>container inspect\<close>.\<close>

definition no_inspect :: env where
  "no_inspect =
     \<lparr>exec = (\<lambda>h f c. (quiet\<lparr>returncode := (if c = inspect_cmd then 1 else 0)\<rparr>, f)),
      loads = (\<lambda>t. None), getcwd = ''/work''\<rparr>"

subsection \<open>What a run does not depend on\<close>

text \<open>Two states that the outside cannot tell apart: they differ in the printed lines
  only. A piece of a script is blind to the printed lines when from such states it yields
  the same result and again such states.\<close>

definition same_outside :: "state \<Rightarrow> state \<Rightarrow> bool" where
  "same_outside s t = (history s = history t \<and> files s = files t)"

definition blind :: "'a prog \<Rightarrow> bool" where
  "blind m = (\<forall>s t. same_outside s t \<longrightarrow>
     fst (m s) = fst (m t) \<and> same_outside (snd (m s)) (snd (m t)))"

subsection \<open>Entries of the expected kind\<close>




subsection \<open>Concrete environments of the Rust script\<close>

text \<open>The image has no Cargo; everything else succeeds. The source file is staged.\<close>

definition no_cargo :: env where
  "no_cargo =
     \<lparr>exec = (\<lambda>h f c. (quiet\<lparr>returncode := (if c = cargo_cmd then 127 else 0)\<rparr>, f)),
      loads = (\<lambda>t. None), getcwd = ''/work''\<rparr>"

definition staged :: state where
  "staged = \<lparr>history = [], printed = [], files = [''hello_world.rs'' \<mapsto> File]\<rparr>"




section \<open>Properties\<close>

subsection \<open>Running the parts symbolically\<close>

lemma run_command_ran:
  "run_command w cmd check s =
     (Inr (strip (stdout (answer w cmd s)), strip (stderr (answer w cmd s)),
           returncode (answer w cmd s)),
      ran w cmd s)"
  by (simp add: run_command_def subprocess_run_def Let_def answer_def ran_def split: prod.splits)

lemma bnd_ret: "bnd (ret x) f s = f x s"
  by (simp add: bnd_def ret_def)

lemma bnd_print: "bnd (print m) f s = f () (said m s)"
  by (simp add: bnd_def print_def said_def)

lemma bnd_unit: "m s = (Inr (), s') \<Longrightarrow> bnd m f s = f () s'"
  by (simp add: bnd_def)

lemma bnd_run_command:
  "bnd (run_command w cmd check) f s =
     f (strip (stdout (answer w cmd s)), strip (stderr (answer w cmd s)),
        returncode (answer w cmd s))
       (ran w cmd s)"
  by (simp add: bnd_def run_command_ran)

lemma answer_said: "answer w cmd (said m s) = answer w cmd s"
  by (simp add: answer_def said_def)

lemma history_said: "history (said m s) = history s"
  by (simp add: said_def)

lemma files_said: "files (said m s) = files s"
  by (simp add: said_def)

lemma printed_said: "printed (said m s) = printed s @ [m]"
  by (simp add: said_def)

lemma history_ran:
  "history (ran w cmd s) = history s @ [Cmd cmd (returncode (answer w cmd s))]"
  by (simp add: ran_def)

lemma printed_ran: "printed (ran w cmd s) = printed s"
  by (simp add: ran_def)

lemma ran_said: "ran w cmd (said m s) = said m (ran w cmd s)"
  by (simp add: ran_def said_def answer_def)

lemmas exec_simps = bnd_ret bnd_print bnd_run_command answer_said history_said files_said
  printed_said history_ran printed_ran ran_said

lemmas pg_cmd_defs = images_cmd_def stop_cmd_def delete_cmd_def start_cmd_def probe_cmd_def
  psql_cmd_def test_query_def create_table_def insert_data_def select_data_def inspect_cmd_def
  container_name_def

subsection \<open>\<^verbatim>\<open>run_command\<close> returns the same triple with and without \<open>check\<close>\<close>

text \<open>
  Claim C10. For every command, every state and every answer of the external process,
  \<open>run_command\<close> returns the triple of the stripped standard output, the stripped standard
  error and the exit status, and it does so whether \<open>check\<close> is set or not: the result and
  the state after the call are the same for both values of \<open>check\<close>, and the result is never
  an exception, so the \<^verbatim>\<open>CalledProcessError\<close> raised inside never reaches the caller.
\<close>

theorem run_command_check_irrelevant:
  "run_command w cmd True s = run_command w cmd False s \<and>
   fst (run_command w cmd check s) =
     Inr (strip (stdout (fst (exec w (history s) (files s) cmd))),
          strip (stderr (fst (exec w (history s) (files s) cmd))),
          returncode (fst (exec w (history s) (files s) cmd)))"
  by (simp add: run_command_def subprocess_run_def Let_def split: prod.splits)

subsection \<open>The cleanup phase of the PostgreSQL script\<close>

lemma pg_cleanup_eq:
  "pg_cleanup w s =
     (let p1 = answer w stop_cmd s; s1 = ran w stop_cmd s;
          p2 = answer w delete_cmd s1; s2 = ran w delete_cmd s1
      in (Inr True,
          s2\<lparr>printed := printed s @
            [Say Plain ''7. Cleaning up...'',
             if returncode p1 = 0 then Say Check ''Container stopped''
             else SayStr Cross ''Failed to stop container: '' (strip (stderr p1)),
             if returncode p2 = 0 then Say Check ''Container deleted''
             else SayStr Cross ''Failed to delete container: '' (strip (stderr p2)),
             Say Plain ''=== Test completed successfully! ===''],
            history := history s @ [Cmd stop_cmd (returncode p1), Cmd delete_cmd (returncode p2)]\<rparr>))"
  by (simp add: pg_cleanup_def exec_simps Let_def ret_def)

text \<open>
  Claim C8. Whatever the stop and the delete command answer, the cleanup phase ends by
  returning \<open>True\<close> and never with an exception. It runs the stop command and then the
  delete command, the delete command also after a stop command that failed. A failed
  stop and a failed delete are each reported by a printed line that carries the standard
  error of the command.
\<close>

theorem pg_cleanup_lenient:
  "(let p1 = answer w stop_cmd s; s1 = ran w stop_cmd s; p2 = answer w delete_cmd s1
    in fst (pg_cleanup w s) = Inr True \<and>
       history (snd (pg_cleanup w s)) =
         history s @ [Cmd stop_cmd (returncode p1), Cmd delete_cmd (returncode p2)] \<and>
       printed (snd (pg_cleanup w s)) = printed s @
         [Say Plain ''7. Cleaning up...'',
          if returncode p1 = 0 then Say Check ''Container stopped''
          else SayStr Cross ''Failed to stop container: '' (strip (stderr p1)),
          if returncode p2 = 0 then Say Check ''Container deleted''
          else SayStr Cross ''Failed to delete container: '' (strip (stderr p2)),
          Say Plain ''=== Test completed successfully! ===''])"
  by (simp add: pg_cleanup_eq Let_def)

subsection \<open>Output of \<^verbatim>\<open>container inspect\<close> that does not decode\<close>

lemma except_undecodable:
  "loads w t = None \<Longrightarrow>
   except_JSONDecodeError (bnd (json_loads w t) f) s =
     (Inr (), said (Say Plain ''Could not parse container information'') s)"
  by (simp add: except_JSONDecodeError_def json_loads_def bnd_def raise_def print_def said_def)

lemma pg_inspect_undecodable:
  assumes "returncode (answer w inspect_cmd s) = 0"
    and "loads w (strip (stdout (answer w inspect_cmd s))) = None"
  shows "pg_inspect w s =
     pg_cleanup w (said (Say Plain ''Could not parse container information'')
       (said (Say Plain ''6. Container information:'') (ran w inspect_cmd s)))"
  using assms
  by (simp add: pg_inspect_def exec_simps bnd_unit [OF except_undecodable])

text \<open>
  Claim C7. When the inspect command succeeds and its output does not decode as JSON,
  the \<^verbatim>\<open>JSONDecodeError\<close> is caught inside step 6: the line
  \<^verbatim>\<open>Could not parse container information\<close> is printed, the run goes on with the cleanup
  phase, which runs the stop and the delete command, and the function returns \<open>True\<close>.
\<close>

theorem malformed_inspect_output_survived:
  assumes "returncode (answer w inspect_cmd s) = 0"
    and "loads w (strip (stdout (answer w inspect_cmd s))) = None"
  shows "(let s1 = ran w inspect_cmd s; p1 = answer w stop_cmd s1;
              p2 = answer w delete_cmd (ran w stop_cmd s1)
          in fst (pg_inspect w s) = Inr True \<and>
             Say Plain ''Could not parse container information''
               \<in> set (printed (snd (pg_inspect w s))) \<and>
             history (snd (pg_inspect w s)) = history s @
               [Cmd inspect_cmd 0, Cmd stop_cmd (returncode p1), Cmd delete_cmd (returncode p2)])"
  using assms
  by (simp add: pg_inspect_undecodable pg_cleanup_eq Let_def exec_simps)

theorem malformed_inspect_output_survived_witness:
  "returncode (answer all_fine inspect_cmd fresh) = 0 \<and>
   loads all_fine (strip (stdout (answer all_fine inspect_cmd fresh))) = None \<and>
   fst (pg_inspect all_fine fresh) = Inr True \<and>
   Say Plain ''Could not parse container information''
     \<in> set (printed (snd (pg_inspect all_fine fresh))) \<and>
   history (snd (pg_inspect all_fine fresh)) =
     [Cmd inspect_cmd 0, Cmd stop_cmd 0, Cmd delete_cmd 0]"
proof -
  have a: "returncode (answer all_fine inspect_cmd fresh) = 0"
    by (simp add: answer_def all_fine_def quiet_def)
  have b: "loads all_fine (strip (stdout (answer all_fine inspect_cmd fresh))) = None"
    by (simp add: all_fine_def)
  have c: "returncode (answer all_fine cmd s) = 0" for cmd s
    by (simp add: answer_def all_fine_def quiet_def)
  show ?thesis
    using malformed_inspect_output_survived [OF a b] a b
    by (simp add: Let_def c fresh_def)
qed

subsection \<open>The readiness loop\<close>

lemma pg_poll_shape:
  "\<exists>cs s'. 0 \<notin> set cs \<and>
     ((length cs < length attempts \<and> pg_poll w attempts s = (Inr True, s') \<and>
       history s' = history s @ concat (map failed_probe cs) @ [Cmd probe_cmd 0]) \<or>
      (length cs = length attempts \<and> pg_poll w attempts s = (Inr False, s') \<and>
       history s' = history s @ concat (map failed_probe cs)))"
proof (induction attempts arbitrary: s)
  case Nil
  show ?case
    by (rule exI [of _ "[]"]) (simp add: exec_simps ret_def)
next
  case (Cons attempt rest)
  let ?c = "returncode (answer w probe_cmd s)"
  show ?case
  proof (cases "?c = 0")
    case True
    then show ?thesis
      by (intro exI [of _ "[]"]) (simp add: run_command_ran exec_simps ret_def)
  next
    case False
    let ?s1 = "(said (SayAttempt (attempt + 1) max_attempts) (ran w probe_cmd s))
                 \<lparr>history := history s @ failed_probe ?c\<rparr>"
    have step: "pg_poll w (attempt # rest) s = pg_poll w rest ?s1"
      using False
      by (simp add: run_command_ran bnd_def print_def sleep_def said_def ran_def failed_probe_def)
    from Cons.IH [of ?s1] obtain cs s' where
      cs: "0 \<notin> set cs" and
      alt: "(length cs < length rest \<and> pg_poll w rest ?s1 = (Inr True, s') \<and>
              history s' = history ?s1 @ concat (map failed_probe cs) @ [Cmd probe_cmd 0]) \<or>
            (length cs = length rest \<and> pg_poll w rest ?s1 = (Inr False, s') \<and>
              history s' = history ?s1 @ concat (map failed_probe cs))"
      by blast
    show ?thesis
      apply (rule exI [of _ "?c # cs"], rule exI [of _ s'])
      using False cs alt by (auto simp: step simp del: pg_poll.simps)
  qed
qed

lemma pg_wait_poll:
  "pg_wait w s =
     (case pg_poll w [0..<max_attempts]
             (said (Say Plain ''3. Waiting for PostgreSQL to be ready...'') s) of
        (Inl e, s') \<Rightarrow> (Inl e, s')
      | (Inr ready, s') \<Rightarrow> if ready then pg_connect w s' else (Inr False, s'))"
  by (simp add: pg_wait_def bnd_print) (simp add: bnd_def ret_def split: prod.splits sum.splits)

lemma pg_wait_shape:
  "\<exists>cs s1. 0 \<notin> set cs \<and>
     ((length cs < max_attempts \<and> pg_wait w s = pg_connect w s1 \<and>
       history s1 = history s @ concat (map failed_probe cs) @ [Cmd probe_cmd 0]) \<or>
      (length cs = max_attempts \<and> pg_wait w s = (Inr False, s1) \<and>
       history s1 = history s @ concat (map failed_probe cs)))"
proof -
  let ?s0 = "said (Say Plain ''3. Waiting for PostgreSQL to be ready...'') s"
  from pg_poll_shape [of "[0..<max_attempts]" w ?s0] obtain cs s' where
    cs: "0 \<notin> set cs" and
    alt: "(length cs < max_attempts \<and> pg_poll w [0..<max_attempts] ?s0 = (Inr True, s') \<and>
            history s' = history s @ concat (map failed_probe cs) @ [Cmd probe_cmd 0]) \<or>
          (length cs = max_attempts \<and> pg_poll w [0..<max_attempts] ?s0 = (Inr False, s') \<and>
            history s' = history s @ concat (map failed_probe cs))"
    by (auto simp: history_said)
  show ?thesis
    apply (rule exI [of _ cs], rule exI [of _ s'])
    using cs alt by (auto simp: pg_wait_poll)
qed

text \<open>
  Claim C3. From step 3 on, the history grows by a number of failed probes, each with a
  nonzero exit status and each followed by a pause of 2, and then either by one probe
  with exit status 0, after fewer than 30 failed ones, upon which the run goes on with
  step 4, or by nothing more, after exactly 30 failed ones, upon which the function
  returns \<open>False\<close>. So between 1 and 30 probes are issued, the loop ends at the first
  probe that succeeds, and 30 failed probes fail the run.
\<close>

theorem readiness_polling_bounded:
  "max_attempts = 30 \<and>
   (\<exists>cs s1. 0 \<notin> set cs \<and>
     ((length cs < max_attempts \<and> pg_wait w s = pg_connect w s1 \<and>
       history s1 = history s @ concat (map failed_probe cs) @ [Cmd probe_cmd 0]) \<or>
      (length cs = max_attempts \<and> pg_wait w s = (Inr False, s1) \<and>
       history s1 = history s @ concat (map failed_probe cs))))"
  using pg_wait_shape [of w s] by (simp add: max_attempts_def)

subsection \<open>Pieces that extend the history without a failure\<close>

lemma saf_harmless: "\<not> (\<exists>e \<in> set xs. failure fatal e) \<Longrightarrow> stops_at_failure fatal cleanup (xs @ ys) b = stops_at_failure fatal cleanup ys b"
  by (induction xs) auto

lemma saf_mono: "stops_at_failure fatal cleanup new b \<Longrightarrow> (b \<Longrightarrow> b') \<Longrightarrow> stops_at_failure fatal cleanup new b'"
  by (induction new) (auto split: if_splits)

lemma harmless_ret: "harmless fatal (ret x)"
  by (simp add: harmless_def ret_def)

lemma harmless_raise: "harmless fatal (raise x)"
  by (simp add: harmless_def raise_def)

lemma harmless_lift: "harmless fatal (lift x)"
  by (simp add: harmless_def lift_def)

lemma harmless_print: "harmless fatal (print x)"
  by (simp add: harmless_def print_def)

lemma harmless_sleep: "harmless fatal (sleep x)"
  by (simp add: harmless_def sleep_def failure_def)

lemma harmless_run_command: "\<not> fatal c \<Longrightarrow> harmless fatal (run_command w c check)"
  by (simp add: harmless_def run_command_ran history_ran failure_def)

lemma harmless_silent: "(\<And>s. history (snd (m s)) = history s) \<Longrightarrow> harmless fatal m"
  by (simp add: harmless_def)

lemma harmless_bnd:
  assumes "harmless fatal m" and "\<And>x. harmless fatal (f x)"
  shows "harmless fatal (bnd m f)"
  unfolding harmless_def
proof
  fix s
  from assms(1) obtain n1 where n1: "history (snd (m s)) = history s @ n1" "\<not> (\<exists>e \<in> set n1. failure fatal e)"
    unfolding harmless_def by blast
  show "\<exists>new. history (snd (bnd m f s)) = history s @ new \<and> \<not> (\<exists>e \<in> set new. failure fatal e)"
  proof (cases "m s")
    case (Pair r s')
    show ?thesis
    proof (cases r)
      case (Inl e)
      with Pair n1 show ?thesis by (auto simp: bnd_def)
    next
      case (Inr x)
      from assms(2) [of x] obtain n2 where n2: "history (snd (f x s')) = history s' @ n2" "\<not> (\<exists>e \<in> set n2. failure fatal e)"
        unfolding harmless_def by blast
      with Pair Inr n1 show ?thesis by (auto simp: bnd_def)
    qed
  qed
qed

lemma harmless_if:
  "harmless fatal a \<Longrightarrow> harmless fatal b \<Longrightarrow> harmless fatal (if c then a else b)"
  by simp

lemma harmless_case_prod:
  "(\<And>a b. harmless fatal (f a b)) \<Longrightarrow> harmless fatal (case x of (a, b) \<Rightarrow> f a b)"
  by (cases x) simp

lemmas harmless_intros = harmless_bnd harmless_print harmless_ret harmless_raise harmless_lift
  harmless_sleep harmless_if harmless_case_prod

lemma obeys_ret: "obeys fatal cleanup bad (ret x)"
  by (simp add: obeys_def ret_def)

lemma obeys_bnd:
  assumes "harmless fatal m" and "\<And>x. obeys fatal cleanup bad (f x)"
  shows "obeys fatal cleanup bad (bnd m f)"
  unfolding obeys_def
proof
  fix s
  from assms(1) obtain n1 where n1: "history (snd (m s)) = history s @ n1" "\<not> (\<exists>e \<in> set n1. failure fatal e)"
    unfolding harmless_def by blast
  show "\<exists>new. history (snd (bnd m f s)) = history s @ new \<and> stops_at_failure fatal cleanup new (bad (fst (bnd m f s)))"
  proof (cases "m s")
    case (Pair r s')
    show ?thesis
    proof (cases r)
      case (Inl e)
      with Pair n1 saf_harmless [of n1 fatal cleanup "[]"] show ?thesis by (auto simp: bnd_def)
    next
      case (Inr x)
      from assms(2) [of x] obtain n2 where n2: "history (snd (f x s')) = history s' @ n2"
         "stops_at_failure fatal cleanup n2 (bad (fst (f x s')))"
        unfolding obeys_def by blast
      with Pair Inr n1 show ?thesis by (auto simp: bnd_def saf_harmless)
    qed
  qed
qed

lemma obeys_checked:
  assumes ok: "\<And>out err. obeys fatal cleanup bad (f (out, err, 0))"
    and ko: "\<And>out err code s. code \<noteq> 0 \<Longrightarrow>
               bad (fst (f (out, err, code) s)) \<and> history (snd (f (out, err, code) s)) = history s"
  shows "obeys fatal cleanup bad (bnd (run_command w c check) f)"
  unfolding obeys_def
proof
  fix s
  let ?p = "answer w c s"
  let ?r = "(strip (stdout ?p), strip (stderr ?p), returncode ?p)"
  show "\<exists>new. history (snd (bnd (run_command w c check) f s)) = history s @ new \<and>
              stops_at_failure fatal cleanup new (bad (fst (bnd (run_command w c check) f s)))"
  proof (cases "returncode ?p = 0")
    case True
    from ok [of "strip (stdout ?p)" "strip (stderr ?p)"] obtain n2 where
      "history (snd (f ?r (ran w c s))) = history (ran w c s) @ n2"
      "stops_at_failure fatal cleanup n2 (bad (fst (f ?r (ran w c s))))"
      unfolding obeys_def using True by metis
    with True show ?thesis
      by (intro exI [of _ "Cmd c 0 # n2"]) (simp add: bnd_run_command history_ran failure_def)
  next
    case False
    from ko [OF False] show ?thesis
      by (intro exI [of _ "[Cmd c (returncode ?p)]"]) (simp add: bnd_run_command history_ran)
  qed
qed

lemma obeys_if:
  "obeys fatal cleanup bad a \<Longrightarrow> obeys fatal cleanup bad b \<Longrightarrow> obeys fatal cleanup bad (if c then a else b)"
  by simp

lemma obeys_case_prod:
  "(\<And>a b. obeys fatal cleanup bad (f a b)) \<Longrightarrow> obeys fatal cleanup bad (case x of (a, b) \<Rightarrow> f a b)"
  by (cases x) simp

lemma obeys_wrapped:
  assumes "obeys fatal cleanup bad m"
    and "\<And>s. history (snd (m' s)) = history (snd (m s))"
    and "\<And>s. bad (fst (m s)) \<Longrightarrow> bad (fst (m' s))"
  shows "obeys fatal cleanup bad m'"
  unfolding obeys_def
proof
  fix s
  from assms(1) obtain new where "history (snd (m s)) = history s @ new"
    "stops_at_failure fatal cleanup new (bad (fst (m s)))"
    unfolding obeys_def by blast
  with assms(2,3) [of s] show "\<exists>new. history (snd (m' s)) = history s @ new \<and>
      stops_at_failure fatal cleanup new (bad (fst (m' s)))"
    by (auto intro: saf_mono)
qed

subsection \<open>The PostgreSQL script stops at the first failure\<close>

lemma harmless_except_JSONDecodeError:
  assumes "harmless fatal body"
  shows "harmless fatal (except_JSONDecodeError body)"
  unfolding harmless_def
proof
  fix s
  from assms obtain n1 where
    n1: "history (snd (body s)) = history s @ n1" "\<not> (\<exists>e \<in> set n1. failure fatal e)"
    unfolding harmless_def by blast
  have "history (snd (except_JSONDecodeError body s)) = history (snd (body s))"
    by (simp add: except_JSONDecodeError_def print_def split: prod.splits sum.splits exn.splits)
  with n1 show "\<exists>new. history (snd (except_JSONDecodeError body s)) = history s @ new \<and>
      \<not> (\<exists>e \<in> set new. failure fatal e)"
    by auto
qed

lemma harmless_json_loads: "harmless fatal (json_loads w t)"
  by (simp add: json_loads_def harmless_ret harmless_raise split: option.splits)

lemma harmless_pg_show_info: "harmless fatal (pg_show_info j)"
  unfolding pg_show_info_def
  by (intro harmless_if harmless_bnd harmless_lift harmless_print harmless_ret)
     (simp add: harmless_ret harmless_raise harmless_bnd harmless_lift harmless_print
        split: json.splits option.splits)

lemma pg_fatal_simps:
  "\<not> pg_fatal stop_cmd" "\<not> pg_fatal delete_cmd" "\<not> pg_fatal probe_cmd" "\<not> pg_fatal inspect_cmd"
  by (simp_all add: pg_fatal_def stop_cmd_def delete_cmd_def probe_cmd_def inspect_cmd_def
      images_cmd_def start_cmd_def psql_cmd_def container_name_def)

lemma failed_step:
  "is_False (fst (bnd (print m) (\<lambda>_. ret False) s)) \<and>
   history (snd (bnd (print m) (\<lambda>_. ret False) s)) = history s"
  by (simp add: exec_simps ret_def is_False_def)

lemma obeys_pg_cleanup: "obeys pg_fatal cleanup bad (pg_cleanup w)"
  unfolding pg_cleanup_def
  by (intro obeys_bnd obeys_case_prod harmless_print harmless_run_command obeys_ret pg_fatal_simps)

lemma obeys_pg_inspect: "obeys pg_fatal cleanup bad (pg_inspect w)"
  unfolding pg_inspect_def
  by (intro obeys_bnd obeys_case_prod harmless_intros harmless_run_command pg_fatal_simps
      harmless_except_JSONDecodeError harmless_json_loads harmless_pg_show_info obeys_pg_cleanup)

lemma obeys_pg_query: "obeys pg_fatal cleanup is_False (pg_query w)"
  unfolding pg_query_def
  by (rule obeys_checked) (simp_all add: failed_step obeys_bnd harmless_print obeys_pg_inspect)

lemma obeys_pg_insert: "obeys pg_fatal cleanup is_False (pg_insert w)"
  unfolding pg_insert_def
  by (rule obeys_checked) (simp_all add: failed_step obeys_bnd harmless_print obeys_pg_query)

lemma obeys_pg_create: "obeys pg_fatal cleanup is_False (pg_create w)"
  unfolding pg_create_def
  by (rule obeys_bnd [OF harmless_print], rule obeys_checked)
     (simp_all add: failed_step obeys_bnd harmless_print obeys_pg_insert)

lemma obeys_pg_connect: "obeys pg_fatal cleanup is_False (pg_connect w)"
  unfolding pg_connect_def
  by (rule obeys_bnd [OF harmless_print], rule obeys_checked)
     (simp_all add: failed_step obeys_bnd harmless_print obeys_pg_create)

lemma harmless_pg_poll: "\<not> fatal probe_cmd \<Longrightarrow> harmless fatal (pg_poll w attempts)"
proof (induction attempts)
  case Nil
  have "pg_poll w [] = bnd (print (Say Cross ''PostgreSQL failed to start within expected time'')) (\<lambda>_. ret False)"
    by (rule ext) simp
  then show ?case by (simp add: harmless_intros)
next
  case (Cons attempt rest)
  have "pg_poll w (attempt # rest) =
     bnd (run_command w probe_cmd True) (\<lambda>(out, err, code).
       if code = 0 then bnd (print (Say Check ''PostgreSQL is ready!'')) (\<lambda>_. ret True)
       else bnd (bnd (print (SayAttempt (attempt + 1) max_attempts)) (\<lambda>_. sleep 2))
              (\<lambda>_. pg_poll w rest))"
    by (rule ext) (simp add: bnd_def split: prod.splits sum.splits)
  with Cons show ?case
    by (simp add: harmless_intros harmless_run_command)
qed

lemma obeys_pg_wait: "obeys pg_fatal cleanup is_False (pg_wait w)"
  unfolding pg_wait_def
  by (intro obeys_bnd obeys_if obeys_ret harmless_print harmless_pg_poll pg_fatal_simps
      obeys_pg_connect)

lemma obeys_pg_start: "obeys pg_fatal cleanup is_False (pg_start w)"
  unfolding pg_start_def
  apply (rule obeys_bnd [OF harmless_print])
  apply (rule obeys_bnd [OF harmless_run_command [of pg_fatal stop_cmd]], rule pg_fatal_simps)
  apply (rule obeys_bnd [OF harmless_run_command [of pg_fatal delete_cmd]], rule pg_fatal_simps)
  apply (rule obeys_checked)
  apply (simp_all add: failed_step obeys_bnd harmless_print obeys_pg_wait)
  done

lemma obeys_test_postgres_chainguard: "obeys pg_fatal cleanup is_False (test_postgres_chainguard w)"
  unfolding test_postgres_chainguard_def
  apply (intro obeys_bnd [OF harmless_print])
  apply (rule obeys_checked)
  apply (simp_all add: failed_step obeys_bnd harmless_print obeys_pg_start)
  done

subsection \<open>The Rust script stops at the first failure\<close>

lemma rust_fatal_simps:
  "\<not> rust_fatal cwd cargo_cmd" "\<not> rust_fatal cwd (optimized_cmd cwd)"
  "\<not> rust_fatal cwd (run_optimized_cmd cwd)" "\<not> rust_fatal cwd uname_cmd"
  "\<not> rust_fatal cwd details_cmd"
  by (simp_all add: rust_fatal_def rust_images_cmd_def version_cmd_def compile_cmd_def run_cmd_def
      cargo_cmd_def optimized_cmd_def run_optimized_cmd_def uname_cmd_def details_cmd_def
      in_container_def in_workspace_def)

lemma harmless_os_makedirs: "harmless fatal (os_makedirs p)"
  by (rule harmless_silent) (simp add: os_makedirs_def split: option.splits entry.splits target.splits)

lemma harmless_write_file: "harmless fatal (write_file p)"
  by (rule harmless_silent) (simp add: write_file_def split: option.splits entry.splits target.splits)

lemma harmless_shutil_move: "harmless fatal (shutil_move a b)"
  by (rule harmless_silent) (simp add: shutil_move_def Let_def split: option.splits entry.splits target.splits)

lemma failed_step_not_True:
  "not_True (fst (bnd (print m) (\<lambda>_. ret False) s)) \<and>
   history (snd (bnd (print m) (\<lambda>_. ret False) s)) = history s"
  by (simp add: exec_simps ret_def not_True_def)

lemma obeys_rust_details: "obeys (rust_fatal cwd) cleanup bad (rust_details w)"
  unfolding rust_details_def
  by (intro obeys_bnd obeys_case_prod harmless_intros harmless_run_command obeys_ret
      rust_fatal_simps)

lemma obeys_rust_uname: "obeys (rust_fatal cwd) cleanup bad (rust_uname w)"
  unfolding rust_uname_def
  by (intro obeys_bnd obeys_case_prod harmless_intros harmless_run_command obeys_rust_details
      rust_fatal_simps)

lemma obeys_rust_features: "obeys (rust_fatal (getcwd w)) cleanup bad (rust_features w)"
  unfolding rust_features_def
  by (intro obeys_bnd obeys_case_prod harmless_intros harmless_run_command obeys_rust_uname
      rust_fatal_simps harmless_os_makedirs harmless_write_file harmless_shutil_move)

lemma obeys_rust_cargo: "obeys (rust_fatal (getcwd w)) cleanup bad (rust_cargo w)"
  unfolding rust_cargo_def
  by (intro obeys_bnd obeys_case_prod harmless_intros harmless_run_command obeys_rust_features
      rust_fatal_simps)

lemma obeys_rust_run: "obeys (rust_fatal (getcwd w)) cleanup not_True (rust_run w)"
  unfolding rust_run_def
  by (rule obeys_bnd [OF harmless_print], rule obeys_checked)
     (simp_all add: failed_step_not_True obeys_bnd harmless_print obeys_rust_cargo)

lemma obeys_rust_compile: "obeys (rust_fatal (getcwd w)) cleanup not_True (rust_compile w)"
  unfolding rust_compile_def
  by (rule obeys_bnd [OF harmless_print], rule obeys_checked)
     (simp_all add: failed_step_not_True obeys_bnd harmless_print obeys_rust_run)

lemma obeys_rust_version: "obeys (rust_fatal (getcwd w)) cleanup not_True (rust_version w)"
  unfolding rust_version_def
  by (rule obeys_bnd [OF harmless_print], rule obeys_checked)
     (simp_all add: failed_step_not_True obeys_bnd harmless_print obeys_rust_compile)

lemma obeys_rust_create: "obeys (rust_fatal (getcwd w)) cleanup not_True (rust_create w)"
  unfolding rust_create_def
  by (intro obeys_bnd harmless_print harmless_write_file obeys_rust_version)

lemma obeys_rust_body: "obeys (rust_fatal (getcwd w)) cleanup not_True (rust_body w)"
  unfolding rust_body_def
  by (rule obeys_bnd [OF harmless_print], rule obeys_checked)
     (simp_all add: failed_step_not_True obeys_bnd harmless_print obeys_rust_create)

lemma obeys_rust_guarded: "obeys (rust_fatal (getcwd w)) cleanup not_True (rust_guarded w)"
proof (rule obeys_wrapped [OF obeys_rust_body])
  fix s
  show "history (snd (rust_guarded w s)) = history (snd (rust_body w s))"
    by (simp add: rust_guarded_def try_except_def exec_simps ret_def split: prod.splits sum.splits)
  show "not_True (fst (rust_body w s)) \<Longrightarrow> not_True (fst (rust_guarded w s))"
    by (cases "rust_body w s")
       (auto simp: rust_guarded_def try_except_def exec_simps ret_def not_True_def
        split: sum.splits)
qed

lemma history_remove_each: "history (snd (remove_each ps s)) = history s"
  by (induction ps arbitrary: s)
     (simp_all add: ret_def path_exists_def os_remove_def split: option.splits entry.splits target.splits)

lemma history_cleanup_files: "history (snd (cleanup_files s)) = history s"
proof -
  have "history (snd (bnd (path_exists ''src'') (\<lambda>found. if found then rmtree ''src'' else ret ()) s')) = history s'" for s'
    by (simp add: bnd_def path_exists_def rmtree_def ret_def split: option.splits entry.splits target.splits)
  then show ?thesis
    using history_remove_each [of files_to_remove s]
    by (cases "remove_each files_to_remove s") (auto simp: cleanup_files_def bnd_def split: sum.splits)
qed

lemma obeys_test_rust_chainguard:
  "obeys (rust_fatal (getcwd w)) cleanup not_True (test_rust_chainguard w)"
proof -
  let ?final = "bnd (print (Say Broom ''Cleaning up test files...'')) (\<lambda>_. cleanup_files)"
  have fin: "history (snd (?final s)) = history s" for s
    by (simp add: exec_simps history_cleanup_files)
  have "obeys (rust_fatal (getcwd w)) cleanup not_True (try_finally (rust_guarded w) ?final)"
  proof (rule obeys_wrapped [OF obeys_rust_guarded])
    fix s
    show "history (snd (try_finally (rust_guarded w) ?final s)) = history (snd (rust_guarded w s))"
      using fin [of "snd (rust_guarded w s)"]
      by (cases "rust_guarded w s"; cases "?final (snd (rust_guarded w s))")
         (auto simp: try_finally_def split: sum.splits)
    show "not_True (fst (rust_guarded w s)) \<Longrightarrow> not_True (fst (try_finally (rust_guarded w) ?final s))"
      by (cases "rust_guarded w s"; cases "?final (snd (rust_guarded w s))")
         (auto simp: try_finally_def not_True_def split: sum.splits)
  qed
  then show ?thesis
    unfolding test_rust_chainguard_def by (intro obeys_bnd harmless_print)
qed

subsection \<open>Which failures end a run\<close>

text \<open>
  Claim C2 as the spec states it, for every sequence of steps, fails: with every command
  succeeding but \<^verbatim>\<open>container inspect\<close>, which exits with status 1 in step 6, the
  PostgreSQL script runs on and returns \<open>True\<close>.
\<close>

theorem failed_inspect_does_not_fail_the_run:
  "fst (test_postgres_chainguard no_inspect fresh) = Inr True \<and>
   history (snd (test_postgres_chainguard no_inspect fresh)) =
     [Cmd images_cmd 0, Cmd stop_cmd 0, Cmd delete_cmd 0, Cmd start_cmd 0, Cmd probe_cmd 0,
      Cmd (psql_cmd test_query) 0, Cmd (psql_cmd create_table) 0, Cmd (psql_cmd insert_data) 0,
      Cmd (psql_cmd select_data) 0, Cmd inspect_cmd 1, Cmd stop_cmd 0, Cmd delete_cmd 0]"
proof -
  have a: "returncode (answer no_inspect c s) = (if c = inspect_cmd then 1 else 0)" for c s
    by (simp add: answer_def no_inspect_def quiet_def)
  have ne: "images_cmd \<noteq> inspect_cmd" "stop_cmd \<noteq> inspect_cmd"
    "delete_cmd \<noteq> inspect_cmd" "start_cmd \<noteq> inspect_cmd"
    "probe_cmd \<noteq> inspect_cmd" "psql_cmd q \<noteq> inspect_cmd" for q
    by (simp_all add: pg_cmd_defs)
  have up: "[0..<max_attempts] = 0 # [1..<max_attempts]"
    by (simp add: max_attempts_def upt_conv_Cons)
  show ?thesis
    by (simp add: test_postgres_chainguard_def pg_start_def pg_wait_poll pg_connect_def
        pg_create_def pg_insert_def pg_query_def pg_inspect_def pg_cleanup_def
        exec_simps a ne up run_command_ran ret_def fresh_def)
qed

lemma no_connection_run:
  "fst (test_postgres_chainguard no_connection fresh) = Inr False \<and>
   history (snd (test_postgres_chainguard no_connection fresh)) =
     [Cmd images_cmd 0, Cmd stop_cmd 0, Cmd delete_cmd 0, Cmd start_cmd 0, Cmd probe_cmd 0,
      Cmd (psql_cmd test_query) 2]"
proof -
  have a: "returncode (answer no_connection c s) = (if c = psql_cmd test_query then 2 else 0)" for c s
    by (simp add: answer_def no_connection_def quiet_def)
  have ne: "images_cmd \<noteq> psql_cmd test_query" "stop_cmd \<noteq> psql_cmd test_query"
    "delete_cmd \<noteq> psql_cmd test_query" "start_cmd \<noteq> psql_cmd test_query"
    "probe_cmd \<noteq> psql_cmd test_query"
    by (simp_all add: pg_cmd_defs)
  have up: "[0..<max_attempts] = 0 # [1..<max_attempts]"
    by (simp add: max_attempts_def upt_conv_Cons)
  show ?thesis
    by (simp add: test_postgres_chainguard_def pg_start_def pg_wait_poll pg_connect_def
        exec_simps a ne up run_command_ran ret_def fresh_def)
qed

text \<open>
  Claim C2, amended to the steps whose failure branch returns \<open>False\<close>. In what a run
  of the PostgreSQL script adds to the history, the first command of steps 1, 2, 4 and 5
  that exits with a nonzero status is followed by nothing but commands of the cleanup
  phase, and the function returns \<open>False\<close>. Step 3 fails when 30 probes have failed, each
  followed by its pause: then the function returns \<open>False\<close> at once and no later step is
  run; with fewer failed probes and then a probe that succeeds the run goes on with
  step 4. In what a run of the Rust script adds to the history, the first command of
  steps 1, 3, 4 and 5 that exits with a nonzero status is the last command, and the
  function does not return \<open>True\<close>: it returns \<open>False\<close>, or the removal of the files
  raises.
\<close>

theorem first_mandatory_failure_aborts:
  "(\<exists>new. history (snd (test_postgres_chainguard w s)) = history s @ new \<and>
      stops_at_failure pg_fatal pg_cleanup_cmd new
        (fst (test_postgres_chainguard w s) = Inr False)) \<and>
   (\<exists>cs s1. 0 \<notin> set cs \<and>
      ((length cs < max_attempts \<and> pg_wait w s = pg_connect w s1 \<and>
        history s1 = history s @ concat (map failed_probe cs) @ [Cmd probe_cmd 0]) \<or>
       (length cs = max_attempts \<and> pg_wait w s = (Inr False, s1) \<and>
        history s1 = history s @ concat (map failed_probe cs)))) \<and>
   (\<exists>new. history (snd (test_rust_chainguard w s)) = history s @ new \<and>
      stops_at_failure (rust_fatal (getcwd w)) no_cmd new
        (fst (test_rust_chainguard w s) \<noteq> Inr True))"
proof (intro conjI)
  show "\<exists>new. history (snd (test_postgres_chainguard w s)) = history s @ new \<and>
      stops_at_failure pg_fatal pg_cleanup_cmd new
        (fst (test_postgres_chainguard w s) = Inr False)"
    using obeys_test_postgres_chainguard [of pg_cleanup_cmd w]
    by (simp add: obeys_def is_False_def)
next
  show "\<exists>cs s1. 0 \<notin> set cs \<and>
      ((length cs < max_attempts \<and> pg_wait w s = pg_connect w s1 \<and>
        history s1 = history s @ concat (map failed_probe cs) @ [Cmd probe_cmd 0]) \<or>
       (length cs = max_attempts \<and> pg_wait w s = (Inr False, s1) \<and>
        history s1 = history s @ concat (map failed_probe cs)))"
    by (rule pg_wait_shape)
next
  show "\<exists>new. history (snd (test_rust_chainguard w s)) = history s @ new \<and>
      stops_at_failure (rust_fatal (getcwd w)) no_cmd new
        (fst (test_rust_chainguard w s) \<noteq> Inr True)"
    using obeys_test_rust_chainguard [of w no_cmd]
    by (simp add: obeys_def not_True_def)
qed

theorem first_mandatory_failure_aborts_witness:
  "history (snd (test_postgres_chainguard no_connection fresh)) =
     [Cmd images_cmd 0, Cmd stop_cmd 0, Cmd delete_cmd 0, Cmd start_cmd 0, Cmd probe_cmd 0,
      Cmd (psql_cmd test_query) 2] \<and>
   failure pg_fatal (Cmd (psql_cmd test_query) 2) \<and>
   fst (test_postgres_chainguard no_connection fresh) = Inr False \<and>
   stops_at_failure pg_fatal pg_cleanup_cmd
     [Cmd images_cmd 0, Cmd stop_cmd 0, Cmd delete_cmd 0, Cmd start_cmd 0, Cmd probe_cmd 0,
      Cmd (psql_cmd test_query) 2]
     (fst (test_postgres_chainguard no_connection fresh) = Inr False)"
proof -
  have "failure pg_fatal (Cmd (psql_cmd test_query) 2)"
    by (simp add: failure_def pg_fatal_def)
  then show ?thesis
    using first_mandatory_failure_aborts [of no_connection fresh] no_connection_run
    by (auto simp: fresh_def)
qed

subsection \<open>A probe that succeeds at once\<close>

lemma pg_connect_first:
  "\<exists>rest. history (snd (pg_connect w s)) =
     history s @ Cmd (psql_cmd test_query) (returncode (answer w (psql_cmd test_query) s)) # rest"
proof (cases "returncode (answer w (psql_cmd test_query) s) = 0")
  case True
  let ?s1 = "said (SayStr Plain ''PostgreSQL version: '' (strip (strip (stdout (answer w (psql_cmd test_query) s)))))
    (said (Say Check ''Database connectivity test successful!'')
      (said (Say Plain ''4. Testing database connectivity...'') (ran w (psql_cmd test_query) s)))"
  from obeys_pg_create [of pg_cleanup_cmd w] obtain more where
    "history (snd (pg_create w ?s1)) = history ?s1 @ more"
    unfolding obeys_def by blast
  with True show ?thesis
    by (simp add: pg_connect_def exec_simps)
next
  case False
  then show ?thesis
    by (simp add: pg_connect_def exec_simps ret_def)
qed

text \<open>
  Claim C6. When the first readiness probe exits with status 0, step 3 adds that probe
  alone to the history, with no pause, and the run goes on with step 4: the next event
  is the connectivity command.
\<close>

theorem ready_at_first_probe:
  assumes "returncode (answer w probe_cmd s) = 0"
  shows "\<exists>s1 rest. pg_wait w s = pg_connect w s1 \<and>
     history s1 = history s @ [Cmd probe_cmd 0] \<and>
     history (snd (pg_wait w s)) =
       history s @ [Cmd probe_cmd 0,
         Cmd (psql_cmd test_query) (returncode (answer w (psql_cmd test_query) s1))] @ rest"
proof -
  let ?s1 = "said (Say Check ''PostgreSQL is ready!'')
    (said (Say Plain ''3. Waiting for PostgreSQL to be ready...'') (ran w probe_cmd s))"
  have up: "[0..<max_attempts] = 0 # [1..<max_attempts]"
    by (simp add: max_attempts_def upt_conv_Cons)
  have wait: "pg_wait w s = pg_connect w ?s1"
    using assms by (simp add: pg_wait_poll up run_command_ran exec_simps ret_def)
  have hist: "history ?s1 = history s @ [Cmd probe_cmd 0]"
    using assms by (simp add: exec_simps)
  from pg_connect_first [of w ?s1] obtain rest where
    "history (snd (pg_connect w ?s1)) =
       history ?s1 @ Cmd (psql_cmd test_query) (returncode (answer w (psql_cmd test_query) ?s1)) # rest"
    by blast
  with wait hist show ?thesis
    by (intro exI [of _ ?s1] exI [of _ rest]) simp
qed

theorem ready_at_first_probe_witness:
  "returncode (answer all_fine probe_cmd fresh) = 0 \<and>
   (\<exists>s1 rest. pg_wait all_fine fresh = pg_connect all_fine s1 \<and>
     history s1 = [Cmd probe_cmd 0] \<and>
     history (snd (pg_wait all_fine fresh)) =
       [Cmd probe_cmd 0, Cmd (psql_cmd test_query) 0] @ rest)"
proof -
  have a: "returncode (answer all_fine c s) = 0" for c s
    by (simp add: answer_def all_fine_def quiet_def)
  show ?thesis
    using ready_at_first_probe [of all_fine fresh, OF a] a
    by (simp add: fresh_def)
qed

subsection \<open>A database that never becomes ready\<close>

lemma pg_poll_never_ready:
  assumes "\<And>s. returncode (answer w probe_cmd s) = c" and "c \<noteq> 0"
  shows "fst (pg_poll w attempts s) = Inr False \<and>
         history (snd (pg_poll w attempts s)) =
           history s @ concat (replicate (length attempts) (failed_probe c))"
proof (induction attempts arbitrary: s)
  case Nil
  show ?case by (simp add: exec_simps ret_def)
next
  case (Cons attempt rest)
  let ?s1 = "(said (SayAttempt (attempt + 1) max_attempts) (ran w probe_cmd s))
               \<lparr>history := history s @ failed_probe c\<rparr>"
  have step: "pg_poll w (attempt # rest) s = pg_poll w rest ?s1"
    using assms
    by (simp add: run_command_ran bnd_def print_def sleep_def said_def ran_def failed_probe_def)
  show ?case
    using Cons.IH [of ?s1] by (simp add: step del: pg_poll.simps)
qed

text \<open>
  Claim C1 does not hold of the code. With the image present, the container started and
  every readiness probe failing, the function returns \<open>False\<close> after the thirtieth
  probe and its pause. After the command that started the container the history holds
  probes and pauses only: neither the stop nor the delete command is run, and the
  container is left behind.
\<close>

theorem timeout_leaves_container_running:
  "fst (test_postgres_chainguard never_ready fresh) = Inr False \<and>
   history (snd (test_postgres_chainguard never_ready fresh)) =
     [Cmd images_cmd 0, Cmd stop_cmd 0, Cmd delete_cmd 0, Cmd start_cmd 0] @
     concat (replicate 30 (failed_probe 1))"
proof -
  have a: "returncode (answer never_ready c s) = (if c = probe_cmd then 1 else 0)" for c s
    by (simp add: answer_def never_ready_def quiet_def)
  have ne: "images_cmd \<noteq> probe_cmd" "stop_cmd \<noteq> probe_cmd"
    "delete_cmd \<noteq> probe_cmd" "start_cmd \<noteq> probe_cmd"
    by (simp_all add: pg_cmd_defs)
  have poll: "fst (pg_poll never_ready [0..<max_attempts] s) = Inr False \<and>
         history (snd (pg_poll never_ready [0..<max_attempts] s)) =
           history s @ concat (replicate 30 (failed_probe 1))" for s
    using pg_poll_never_ready [of never_ready 1 "[0..<max_attempts]" s]
    by (simp add: a max_attempts_def)
  have wait: "fst (pg_wait never_ready s) = Inr False \<and>
      history (snd (pg_wait never_ready s)) = history s @ concat (replicate 30 (failed_probe 1))" for s
    using poll [of "said (Say Plain ''3. Waiting for PostgreSQL to be ready...'') s"]
    by (cases "pg_poll never_ready [0..<max_attempts]
                 (said (Say Plain ''3. Waiting for PostgreSQL to be ready...'') s)")
       (auto simp: pg_wait_poll history_said)
  show ?thesis
    by (simp add: test_postgres_chainguard_def pg_start_def exec_simps a ne wait fresh_def)
qed

subsection \<open>The exit status of the process\<close>

text \<open>
  Claim C4. Both scripts end with status 0 when their function returned \<open>True\<close> and with
  status 1 otherwise, that is when it returned \<open>False\<close> or an exception left it.
\<close>

theorem exit_status_reflects_result:
  "postgres_main w s = (if fst (test_postgres_chainguard w s) = Inr True then 0 else 1) \<and>
   rust_main w s = (if fst (test_rust_chainguard w s) = Inr True then 0 else 1)"
  by (simp add: postgres_main_def rust_main_def exit_status_def split: sum.splits)

subsection \<open>The version of Cargo\<close>

lemmas rust_cmd_defs = rust_images_cmd_def version_cmd_def compile_cmd_def run_cmd_def
  cargo_cmd_def optimized_cmd_def run_optimized_cmd_def uname_cmd_def details_cmd_def
  in_container_def in_workspace_def

lemma bnd_assoc: "bnd (bnd m f) g = bnd m (\<lambda>x. bnd (f x) g)"
  by (rule ext) (simp add: bnd_def split: prod.splits sum.splits)

lemma bnd_write_file:
  "files s p = None \<or> files s p = Some File \<Longrightarrow>
   bnd (write_file p) f s = f () (s\<lparr>files := (files s)(p \<mapsto> File)\<rparr>)"
  by (auto simp: bnd_def write_file_def)

lemma bnd_os_makedirs:
  "files s p = None \<Longrightarrow>
   bnd (os_makedirs p) f s = f () (s\<lparr>files := (files s)(p \<mapsto> Dir)\<rparr>)"
  by (simp add: bnd_def os_makedirs_def)

lemma bnd_shutil_move:
  "files s dst = None \<Longrightarrow> files s src = Some File \<Longrightarrow>
   bnd (shutil_move src dst) f s = f () (s\<lparr>files := (files s)(src := None, dst \<mapsto> File)\<rparr>)"
  by (simp add: bnd_def shutil_move_def)

lemma blind_ret: "blind (ret x)"
  by (simp add: blind_def ret_def)

lemma blind_print: "blind (print m)"
  by (simp add: blind_def print_def same_outside_def)

lemma blind_run_command: "blind (run_command w c check)"
  by (simp add: blind_def run_command_ran same_outside_def answer_def ran_def)

lemma blindI:
  assumes "\<And>h p p' f.
     fst (m \<lparr>history = h, printed = p, files = f\<rparr>) =
       fst (m \<lparr>history = h, printed = p', files = f\<rparr>) \<and>
     history (snd (m \<lparr>history = h, printed = p, files = f\<rparr>)) =
       history (snd (m \<lparr>history = h, printed = p', files = f\<rparr>)) \<and>
     files (snd (m \<lparr>history = h, printed = p, files = f\<rparr>)) =
       files (snd (m \<lparr>history = h, printed = p', files = f\<rparr>))"
  shows "blind m"
  unfolding blind_def same_outside_def
proof (intro allI impI)
  fix s t :: state
  assume "history s = history t \<and> files s = files t"
  then show "fst (m s) = fst (m t) \<and> history (snd (m s)) = history (snd (m t)) \<and>
      files (snd (m s)) = files (snd (m t))"
    using assms [of "history t" "printed s" "files t" "printed t"]
    by (cases s; cases t) simp
qed

lemma blind_os_makedirs: "blind (os_makedirs p)"
  by (rule blindI) (simp add: os_makedirs_def split: option.splits entry.splits target.splits)

lemma blind_write_file: "blind (write_file p)"
  by (rule blindI) (simp add: write_file_def split: option.splits entry.splits target.splits)

lemma blind_shutil_move: "blind (shutil_move a b)"
  by (rule blindI) (auto simp: shutil_move_def Let_def split: option.splits entry.splits target.splits)

lemma blind_bnd:
  assumes "blind m" and "\<And>x. blind (f x)"
  shows "blind (bnd m f)"
  unfolding blind_def
proof (intro allI impI)
  fix s t
  assume st: "same_outside s t"
  with assms(1) have m: "fst (m s) = fst (m t)" "same_outside (snd (m s)) (snd (m t))"
    unfolding blind_def by blast+
  show "fst (bnd m f s) = fst (bnd m f t) \<and> same_outside (snd (bnd m f s)) (snd (bnd m f t))"
  proof (cases "m s"; cases "m t")
    fix r s' r' t'
    assume ms: "m s = (r, s')" and mt: "m t = (r', t')"
    with m have r: "r' = r" and o: "same_outside s' t'" by simp_all
    show ?thesis
    proof (cases r)
      case (Inl e)
      with ms mt r o show ?thesis by (simp add: bnd_def)
    next
      case (Inr x)
      from assms(2) [of x] o have "fst (f x s') = fst (f x t') \<and> same_outside (snd (f x s')) (snd (f x t'))"
        unfolding blind_def by blast
      with ms mt r Inr show ?thesis by (simp add: bnd_def)
    qed
  qed
qed

lemma blind_if: "blind a \<Longrightarrow> blind b \<Longrightarrow> blind (if c then a else b)"
  by simp

lemma blind_case_prod: "(\<And>a b. blind (f a b)) \<Longrightarrow> blind (case x of (a, b) \<Rightarrow> f a b)"
  by (cases x) simp

lemmas blind_intros = blind_bnd blind_ret blind_print blind_run_command blind_os_makedirs
  blind_write_file blind_shutil_move blind_if blind_case_prod

lemma blind_rust_details: "blind (rust_details w)"
  unfolding rust_details_def by (intro blind_intros)

lemma blind_rust_uname: "blind (rust_uname w)"
  unfolding rust_uname_def by (intro blind_intros blind_rust_details)

lemma blind_rust_features: "blind (rust_features w)"
  unfolding rust_features_def by (intro blind_intros blind_rust_uname)

lemma rust_features_said: "fst (rust_features w (said m s)) = fst (rust_features w s)"
proof -
  have "same_outside (said m s) s"
    by (simp add: same_outside_def history_said files_said)
  moreover have "same_outside (said m s) s \<longrightarrow>
      fst (rust_features w (said m s)) = fst (rust_features w s) \<and>
      same_outside (snd (rust_features w (said m s))) (snd (rust_features w s))"
    using blind_rust_features [of w] unfolding blind_def by (elim allE)
  ultimately show ?thesis by (elim impE conjE) assumption+
qed

lemma no_cargo_run:
  "fst (rust_cargo no_cargo staged) = Inr True \<and>
   history (snd (rust_cargo no_cargo staged)) =
     [Cmd cargo_cmd 127, Cmd (optimized_cmd ''/work'') 0, Cmd (run_optimized_cmd ''/work'') 0,
      Cmd uname_cmd 0, Cmd details_cmd 0]"
proof -
  have a: "returncode (answer no_cargo c s) = (if c = cargo_cmd then 127 else 0)" for c s
    by (simp add: answer_def no_cargo_def quiet_def)
  have f: "files (ran no_cargo c s) = files s" for c s
    by (simp add: ran_def no_cargo_def)
  have cwd: "getcwd no_cargo = ''/work''"
    by (simp add: no_cargo_def)
  have ne: "optimized_cmd ''/work'' \<noteq> cargo_cmd" "run_optimized_cmd ''/work'' \<noteq> cargo_cmd"
    "uname_cmd \<noteq> cargo_cmd" "details_cmd \<noteq> cargo_cmd"
    by (simp_all add: rust_cmd_defs)
  show ?thesis
    by (simp add: rust_cargo_def rust_features_def rust_uname_def rust_details_def
        exec_simps bnd_assoc bnd_write_file bnd_os_makedirs bnd_shutil_move a f cwd ne ret_def
        staged_def)
qed

text \<open>
  Claim C5. When the Cargo version command of step 6 exits with a nonzero status, the
  script prints the warning \<^verbatim>\<open>Cargo not available (expected for minimal Rust image)\<close>
  and goes on with step 7 in a state that differs from the one after the command by
  printed lines only. What the function returns from step 6 on is what steps 7 to 9
  return when run right after the command: the failure of the step does not enter it.
\<close>

theorem cargo_failure_is_a_warning:
  assumes "returncode (answer w cargo_cmd s) \<noteq> 0"
  shows "rust_cargo w s =
      rust_features w
        (said (Say Warning ''Cargo not available (expected for minimal Rust image)'')
          (said (Say Plain ''6. Testing Cargo (Rust package manager)...'') (ran w cargo_cmd s))) \<and>
    fst (rust_cargo w s) = fst (rust_features w (ran w cargo_cmd s))"
  using assms by (simp add: rust_cargo_def exec_simps rust_features_said)

theorem cargo_failure_is_a_warning_witness:
  "returncode (answer no_cargo cargo_cmd staged) \<noteq> 0 \<and>
   rust_cargo no_cargo staged =
      rust_features no_cargo
        (said (Say Warning ''Cargo not available (expected for minimal Rust image)'')
          (said (Say Plain ''6. Testing Cargo (Rust package manager)...'')
            (ran no_cargo cargo_cmd staged))) \<and>
   fst (rust_features no_cargo (ran no_cargo cargo_cmd staged)) = Inr True"
proof -
  have a: "returncode (answer no_cargo cargo_cmd staged) \<noteq> 0"
    by (simp add: answer_def no_cargo_def quiet_def)
  from cargo_failure_is_a_warning [OF a] a no_cargo_run show ?thesis
    by simp
qed

subsection \<open>The files removed at the end of the Rust script\<close>




text \<open>Links are outside what the removal handles: a dangling link is skipped, since
  \<^verbatim>\<open>os.path.exists\<close> does not see it, and a link in the place of \<^verbatim>\<open>src\<close> makes
  \<^verbatim>\<open>shutil.rmtree\<close> raise.\<close>

lemma dangling_link_is_skipped:
  assumes "files s = [''hello_optimized'' \<mapsto> Link Dangling]"
  shows "\<exists>s'. cleanup_files s = (Inr (), s') \<and>
     files s' ''hello_optimized'' = Some (Link Dangling)"
  by (simp add: cleanup_files_def files_to_remove_def bnd_def path_exists_def ret_def assms)

lemma linked_src_raises:
  assumes "files s = [''src'' \<mapsto> Link ToDir]"
  shows "\<exists>s'. cleanup_files s = (Inl OSError, s') \<and> files s' ''src'' = Some (Link ToDir)"
  by (simp add: cleanup_files_def files_to_remove_def bnd_def path_exists_def rmtree_def ret_def
      assms)



















end
